theory Spec2Isabelle
  imports
    Main
    "HOL-Library.AList"
    "HOL-Library.Char_ord"
    "HOL-Library.List_Lexorder"
begin

section \<open>Broadcast store (\<open>useBroadcastsStore\<close>)\<close>

subsection \<open>Data\<close>

text \<open>
  \<open>Expirable\<close> is \<open>Pick<BroadcastNotification, "expiration_time">\<close>; a broadcast
  extends it with the fields the store reads (\<open>id\<close>, \<open>create_time\<close>) and the rest of the
  notification as \<open>payload\<close>. An \<open>expiration_time\<close> that is \<open>undefined\<close> is \<open>None\<close>.
  The field \<open>id\<close> is named \<open>id_b\<close> here, \<open>id\<close> being the identity function of HOL.
\<close>

record expirable =
  expiration_time :: "string option"

record 'p broadcast = expirable +
  id_b :: string
  create_time :: string
  payload :: 'p

text \<open>
  The dismissal object \<open>{ [key: string]: Expirable }\<close> is an association list in
  insertion order: \<open>map_of\<close> reads a key of its own, \<open>AList.update\<close> is \<open>Vue.set\<close>,
  \<open>AList.delete\<close> is \<open>delete obj[key]\<close>.
\<close>

type_synonym dismissed = "(string \<times> expirable) list"

record 'p broadcasts_store =
  broadcasts :: "'p broadcast list"
  loadingBroadcasts :: bool
  dismissedBroadcasts :: dismissed

text \<open>The outcome of an awaited promise: it resolves, or it rejects with an error.\<close>

datatype 'e outcome = Resolved | Rejected 'e

subsection \<open>Operations\<close>

text \<open>
  \<open>hasExpired\<close>. The two readings of the environment are parameters: \<open>parseDate\<close> is
  \<open>new Date(string)\<close> as milliseconds since the epoch, \<open>None\<close> for an invalid date (whose
  comparisons are all false), and \<open>now\<close> is the value of \<open>new Date()\<close>. One synchronous call
  of a store operation is taken to read the clock at one instant.
\<close>

definition hasExpired :: "(string \<Rightarrow> int option) \<Rightarrow> int \<Rightarrow> string option \<Rightarrow> bool" where
  "hasExpired parseDate now expirationTimeStr =
     (case expirationTimeStr of
        None \<Rightarrow> False
      | Some str \<Rightarrow>
          if str = [] then False
          else (case parseDate (str @ ''Z'') of
                  None \<Rightarrow> False
                | Some expirationTime \<Rightarrow> now > expirationTime))"

text \<open>
  \<open>activeBroadcasts\<close> tests \<open>!dismissedBroadcasts.value[b.id]\<close>. The property read goes
  through the prototype chain of the object: it finds the dismissal record stored under
  the id (an object, so truthy), and otherwise any member the object inherits under that
  name. \<open>inherited\<close> says for which names the object yields a truthy value without a
  record of its own. For a plain object these are the members of \<open>Object.prototype\<close>
  (functions, and the prototype itself under \<open>__proto__\<close>), given by \<open>objectPrototype\<close>;
  none of them is enumerable, so the \<open>for ... in\<close> loop further down does not visit them.
\<close>

definition objectPrototype :: "string \<Rightarrow> bool" where
  "objectPrototype key =
     (key \<in> set [''constructor'', ''hasOwnProperty'', ''isPrototypeOf'',
        ''propertyIsEnumerable'', ''toLocaleString'', ''toString'', ''valueOf'',
        ''__proto__'', ''__defineGetter__'', ''__defineSetter__'',
        ''__lookupGetter__'', ''__lookupSetter__''])"

definition truthyAt :: "(string \<Rightarrow> bool) \<Rightarrow> dismissed \<Rightarrow> string \<Rightarrow> bool" where
  "truthyAt inherited d key =
     (case map_of d key of Some r \<Rightarrow> True | None \<Rightarrow> inherited key)"

definition activeBroadcasts ::
  "(string \<Rightarrow> bool) \<Rightarrow> 'p broadcasts_store \<Rightarrow> 'p broadcast list" where
  "activeBroadcasts inherited s =
     filter (\<lambda>b. \<not> truthyAt inherited (dismissedBroadcasts s) (id_b b)) (broadcasts s)"

text \<open>
  \<open>loadBroadcasts\<close> in two steps, before and after the awaited \<open>fetchAllBroadcasts()\<close>.
  The helper \<open>mergeObjectListsById\<close>, called with \<open>"create_time"\<close> and \<open>"desc"\<close>, is the
  parameter \<open>merge\<close>.
\<close>

definition loadBroadcasts_begin :: "'p broadcasts_store \<Rightarrow> 'p broadcasts_store" where
  "loadBroadcasts_begin s = s\<lparr>loadingBroadcasts := True\<rparr>"

definition loadBroadcasts_resume ::
  "('p broadcast list \<Rightarrow> 'p broadcast list \<Rightarrow> 'p broadcast list) \<Rightarrow>
   'e + 'p broadcast list \<Rightarrow> 'p broadcasts_store \<Rightarrow> 'e outcome \<times> 'p broadcasts_store" where
  "loadBroadcasts_resume merge response s =
     (case response of
        Inr data \<Rightarrow> (Resolved, s\<lparr>broadcasts := merge data [], loadingBroadcasts := False\<rparr>)
      | Inl err \<Rightarrow> (Rejected err, s\<lparr>loadingBroadcasts := False\<rparr>))"

definition loadBroadcasts ::
  "('p broadcast list \<Rightarrow> 'p broadcast list \<Rightarrow> 'p broadcast list) \<Rightarrow>
   'e + 'p broadcast list \<Rightarrow> 'p broadcasts_store \<Rightarrow> 'e outcome \<times> 'p broadcasts_store" where
  "loadBroadcasts merge response s = loadBroadcasts_resume merge response (loadBroadcasts_begin s)"

definition updateBroadcasts ::
  "('p broadcast list \<Rightarrow> 'p broadcast list \<Rightarrow> 'p broadcast list) \<Rightarrow>
   (string \<Rightarrow> int option) \<Rightarrow> int \<Rightarrow> 'p broadcast list \<Rightarrow>
   'p broadcasts_store \<Rightarrow> 'p broadcasts_store" where
  "updateBroadcasts merge parseDate now broadcastList s =
     s\<lparr>broadcasts :=
         filter (\<lambda>b. \<not> hasExpired parseDate now (expiration_time b))
           (merge (broadcasts s) broadcastList)\<rparr>"

definition dismissBroadcast :: "'p broadcast \<Rightarrow> 'p broadcasts_store \<Rightarrow> 'p broadcasts_store" where
  "dismissBroadcast broadcast s =
     s\<lparr>dismissedBroadcasts :=
         AList.update (id_b broadcast) \<lparr>expiration_time = expiration_time broadcast\<rparr>
           (dismissedBroadcasts s)\<rparr>"

text \<open>
  The body of the \<open>for (const key in ...)\<close> loop of \<open>clearExpiredDismissedBroadcasts\<close>;
  \<open>d[key]?.expiration_time\<close> is \<open>undefined\<close> when the key is gone.
\<close>

definition clearStep :: "(string \<Rightarrow> int option) \<Rightarrow> int \<Rightarrow> string \<Rightarrow> dismissed \<Rightarrow> dismissed" where
  "clearStep parseDate now key d =
     (if hasExpired parseDate now (Option.bind (map_of d key) expiration_time)
      then AList.delete key d else d)"

definition clearExpiredDismissedBroadcasts ::
  "(string \<Rightarrow> int option) \<Rightarrow> int \<Rightarrow> 'p broadcasts_store \<Rightarrow> 'p broadcasts_store" where
  "clearExpiredDismissedBroadcasts parseDate now s =
     s\<lparr>dismissedBroadcasts :=
         fold (clearStep parseDate now) (map fst (dismissedBroadcasts s)) (dismissedBroadcasts s)\<rparr>"

text \<open>
  The store's setup function: an empty list, the dismissal map read from the user's local
  storage, and one run of \<open>clearExpiredDismissedBroadcasts\<close>.
\<close>

definition useBroadcastsStore ::
  "(string \<Rightarrow> int option) \<Rightarrow> int \<Rightarrow> dismissed \<Rightarrow> 'p broadcasts_store" where
  "useBroadcastsStore parseDate now persisted =
     clearExpiredDismissedBroadcasts parseDate now
       \<lparr>broadcasts = [], loadingBroadcasts = False, dismissedBroadcasts = persisted\<rparr>"


subsection \<open>The merge helper\<close>

text \<open>
  Modelled from the spec: \<open>mergeObjectListsById\<close> of the module \<open>utils/utils\<close>, which is
  not among the sources; only its two calls in the store are. The spec describes the result
  as the lists "merged by \<open>create_time\<close> descending, deduplicated by id", the incoming list
  merged "into existing". The model joins the two lists, keeps one element for each id
  (the last one, so that an incoming element replaces an existing one of the same id) and
  sorts by \<open>create_time\<close>, largest first; timestamps are compared as strings.
\<close>

fun dedupById :: "'p broadcast list \<Rightarrow> 'p broadcast list" where
  "dedupById [] = []"
| "dedupById (x # xs) =
     (if id_b x \<in> set (map id_b xs) then dedupById xs else x # dedupById xs)"

fun insertDesc :: "'p broadcast \<Rightarrow> 'p broadcast list \<Rightarrow> 'p broadcast list" where
  "insertDesc x [] = [x]"
| "insertDesc x (y # ys) =
     (if create_time y \<le> create_time x then x # y # ys else y # insertDesc x ys)"

fun sortDesc :: "'p broadcast list \<Rightarrow> 'p broadcast list" where
  "sortDesc [] = []"
| "sortDesc (x # xs) = insertDesc x (sortDesc xs)"

definition mergeObjectListsById ::
  "'p broadcast list \<Rightarrow> 'p broadcast list \<Rightarrow> 'p broadcast list" where
  "mergeObjectListsById list1 list2 = sortDesc (dedupById (list1 @ list2))"

subsection \<open>The store driven by a sequence of calls\<close>

text \<open>
  What a client does with the store: it calls \<open>loadBroadcasts\<close> (the fetch answers with a
  list or fails), \<open>updateBroadcasts\<close> or \<open>dismissBroadcast\<close>, or the page is loaded again,
  which sets the store up anew from the dismissal map kept in local storage.
\<close>

datatype ('e, 'p) action =
    Load "'e + 'p broadcast list"
  | Update int "'p broadcast list"
  | Dismiss "'p broadcast"
  | Reload int

fun act ::
  "('p broadcast list \<Rightarrow> 'p broadcast list \<Rightarrow> 'p broadcast list) \<Rightarrow>
   (string \<Rightarrow> int option) \<Rightarrow> ('e, 'p) action \<Rightarrow> 'p broadcasts_store \<Rightarrow> 'p broadcasts_store" where
  "act merge parseDate (Load response) s = snd (loadBroadcasts merge response s)"
| "act merge parseDate (Update now broadcastList) s =
     updateBroadcasts merge parseDate now broadcastList s"
| "act merge parseDate (Dismiss broadcast) s = dismissBroadcast broadcast s"
| "act merge parseDate (Reload now) s =
     useBroadcastsStore parseDate now (dismissedBroadcasts s)"

definition run ::
  "('p broadcast list \<Rightarrow> 'p broadcast list \<Rightarrow> 'p broadcast list) \<Rightarrow>
   (string \<Rightarrow> int option) \<Rightarrow> ('e, 'p) action list \<Rightarrow> 'p broadcasts_store \<Rightarrow> 'p broadcasts_store" where
  "run merge parseDate as s = fold (act merge parseDate) as s"

text \<open>
  The calls of a sequence that could end a dismissal of the id \<open>k\<close> recorded with expiration
  \<open>e\<close>: a page load at an instant when \<open>e\<close> has passed, and a new dismissal under the same id.
\<close>

fun keeps :: "(string \<Rightarrow> int option) \<Rightarrow> string \<Rightarrow> string option \<Rightarrow> ('e, 'p) action \<Rightarrow> bool" where
  "keeps parseDate k e (Reload now) = (\<not> hasExpired parseDate now e)"
| "keeps parseDate k e (Dismiss broadcast) = (id_b broadcast \<noteq> k)"
| "keeps parseDate k e (Load response) = True"
| "keeps parseDate k e (Update now broadcastList) = True"

section \<open>Data providers\<close>

text \<open>
  The reactive data of the two providers: \<open>{loading, item}\<close> of \<open>SimpleProviderMixin\<close> and
  \<open>{loading, error}\<close> of \<open>StoreProvider\<close>; \<open>null\<close> is \<open>None\<close>.
\<close>

record provider_data =
  loading :: bool

record 'a simple_provider = provider_data +
  item :: "'a option"

record 'e store_provider = provider_data +
  error :: "'e option"

datatype request = Get string

definition SimpleProviderMixin_data :: "'a simple_provider" where
  "SimpleProviderMixin_data = \<lparr>loading = False, item = None\<rparr>"

text \<open>
  \<open>load\<close> of \<open>SimpleProviderMixin\<close>, before and after the awaited \<open>axios.get(this.url)\<close>.
  There is no \<open>try\<close>: a failed request rejects the promise of \<open>load\<close> at the \<open>await\<close>
  and the two assignments after it do not run.
\<close>

definition SimpleProviderMixin_load_begin ::
  "string \<Rightarrow> 'a simple_provider \<Rightarrow> 'a simple_provider \<times> request" where
  "SimpleProviderMixin_load_begin url s = (s\<lparr>loading := True\<rparr>, Get url)"

definition SimpleProviderMixin_load_resume ::
  "'e + 'a \<Rightarrow> 'a simple_provider \<Rightarrow> 'e outcome \<times> 'a simple_provider" where
  "SimpleProviderMixin_load_resume response s =
     (case response of
        Inl err \<Rightarrow> (Rejected err, s)
      | Inr data \<Rightarrow> (Resolved, s\<lparr>item := Some data, loading := False\<rparr>))"

text \<open>
  The handler of the watcher on \<open>id\<close> (\<open>immediate\<close>: it also runs at mount, with
  \<open>oldVal\<close> undefined). \<open>this.url\<close> is computed by each concrete provider from the id,
  here the function \<open>url\<close>. The result is the data after the synchronous part and the
  requests issued.
\<close>

definition id_handler ::
  "(string \<Rightarrow> string) \<Rightarrow> string \<Rightarrow> string option \<Rightarrow> 'a simple_provider \<Rightarrow>
   'a simple_provider \<times> request list" where
  "id_handler url newVal oldVal s =
     (if Some newVal \<noteq> oldVal
      then (case SimpleProviderMixin_load_begin (url newVal) s of (s', r) \<Rightarrow> (s', [r]))
      else (s, []))"

definition SimpleProviderMixin_load ::
  "string \<Rightarrow> 'e + 'a \<Rightarrow> 'a simple_provider \<Rightarrow> 'e outcome \<times> 'a simple_provider" where
  "SimpleProviderMixin_load url response s =
     SimpleProviderMixin_load_resume response (fst (SimpleProviderMixin_load_begin url s))"

text \<open>
  The \<open>url\<close> of \<open>JobProvider\<close>, one of the concrete providers; \<open>prependPath\<close> of
  \<open>utils/redirect\<close> is a parameter.
\<close>

definition JobProvider_url :: "(string \<Rightarrow> string) \<Rightarrow> string \<Rightarrow> string" where
  "JobProvider_url prependPath i = prependPath (''api/jobs/'' @ i @ ''?full=true'')"

definition StoreProvider_data :: "'e store_provider" where
  "StoreProvider_data = \<lparr>loading = False, error = None\<rparr>"

text \<open>
  \<open>load\<close> of \<open>StoreProvider\<close>, before and after the awaited store action; the \<open>catch\<close>
  clause takes the rejection, so the promise of \<open>load\<close> always resolves.
\<close>

definition StoreProvider_load_begin :: "'e store_provider \<Rightarrow> 'e store_provider" where
  "StoreProvider_load_begin s = s\<lparr>loading := True\<rparr>"

definition StoreProvider_load_resume ::
  "'e + 'r \<Rightarrow> 'e store_provider \<Rightarrow> 'e outcome \<times> 'e store_provider" where
  "StoreProvider_load_resume response s =
     (case response of
        Inr _ \<Rightarrow> (Resolved, s\<lparr>error := None, loading := False\<rparr>)
      | Inl err \<Rightarrow> (Resolved, s\<lparr>error := Some err, loading := False\<rparr>))"

definition StoreProvider_load :: "'e + 'r \<Rightarrow> 'e store_provider \<Rightarrow> 'e outcome \<times> 'e store_provider" where
  "StoreProvider_load response s = StoreProvider_load_resume response (StoreProvider_load_begin s)"

section \<open>Workflow editor options toolbar\<close>

datatype event =
    OnAttributes | OnSave | OnCreate | OnReport | OnSaveAs
  | OnLayout | OnLint | OnUpgrade | OnDownload | OnRun

record props =
  isNewTempWorkflow :: bool
  hasChanges :: bool
  hasInvalidConnections :: bool
  requiredReindex :: bool

datatype effect = ConsoleLog string | Confirm string | Emit event

definition emitSaveOrCreate :: "props \<Rightarrow> effect list" where
  "emitSaveOrCreate p = (if isNewTempWorkflow p then [Emit OnCreate] else [Emit OnSave])"

text \<open>
  \<open>onSave\<close>; \<open>confirmed\<close> is what the awaited dialog answers, read only when the dialog is
  shown. The result lists what the call does, in order.
\<close>

definition onSave :: "props \<Rightarrow> bool \<Rightarrow> effect list" where
  "onSave p confirmed =
     (if hasInvalidConnections p
      then [ConsoleLog ''getting confirmation'',
            Confirm ''Workflow has invalid connections. You can save the workflow, but it may not run correctly.'']
           @ (if confirmed then emitSaveOrCreate p else [])
      else emitSaveOrCreate p)"

fun emitted :: "effect list \<Rightarrow> event list" where
  "emitted [] = []"
| "emitted (Emit e # es) = e # emitted es"
| "emitted (_ # es) = emitted es"


section \<open>Sample data\<close>

text \<open>
  A date table standing for \<open>new Date(string)\<close> on the two timestamps used below, an
  instant between them, and three broadcasts: one expired at that instant, one not yet,
  one without expiration.
\<close>

definition sampleParseDate :: "string \<Rightarrow> int option" where
  "sampleParseDate str =
     (if str = ''2024-01-01T00:00:00Z'' then Some 1704067200000
      else if str = ''2030-01-01T00:00:00Z'' then Some 1893456000000
      else None)"

definition sampleNow :: int where
  "sampleNow = 1750000000000"

definition expiredBroadcast :: "string broadcast" where
  "expiredBroadcast =
     \<lparr>expiration_time = Some ''2024-01-01T00:00:00'', id_b = ''b1'',
      create_time = ''2023-12-01T00:00:00'', payload = ''maintenance''\<rparr>"

definition currentBroadcast :: "string broadcast" where
  "currentBroadcast =
     \<lparr>expiration_time = Some ''2030-01-01T00:00:00'', id_b = ''b2'',
      create_time = ''2025-01-01T00:00:00'', payload = ''release''\<rparr>"

definition openBroadcast :: "string broadcast" where
  "openBroadcast =
     \<lparr>expiration_time = None, id_b = ''b3'',
      create_time = ''2024-06-01T00:00:00'', payload = ''welcome''\<rparr>"

definition inheritedBroadcast :: "string broadcast" where
  "inheritedBroadcast =
     \<lparr>expiration_time = None, id_b = ''constructor'',
      create_time = ''2024-07-01T00:00:00'', payload = ''notice''\<rparr>"

definition sampleStore :: "string broadcasts_store" where
  "sampleStore =
     \<lparr>broadcasts = [currentBroadcast, expiredBroadcast], loadingBroadcasts = False,
      dismissedBroadcasts = []\<rparr>"

definition sampleDismissed :: dismissed where
  "sampleDismissed =
     [(''b1'', \<lparr>expiration_time = Some ''2024-01-01T00:00:00''\<rparr>),
      (''b2'', \<lparr>expiration_time = Some ''2030-01-01T00:00:00''\<rparr>),
      (''b3'', \<lparr>expiration_time = None\<rparr>)]"

definition dismissedStore :: "string broadcasts_store" where
  "dismissedStore = sampleStore\<lparr>dismissedBroadcasts := sampleDismissed\<rparr>"

definition inheritedStore :: "string broadcasts_store" where
  "inheritedStore =
     \<lparr>broadcasts = [inheritedBroadcast, openBroadcast], loadingBroadcasts = False,
      dismissedBroadcasts = []\<rparr>"

definition sampleCalls :: "(string, string) action list" where
  "sampleCalls = [Reload sampleNow, Load (Inr [openBroadcast, currentBroadcast])]"

definition fetchedList :: "string broadcast list" where
  "fetchedList = [expiredBroadcast, openBroadcast, currentBroadcast, openBroadcast]"

definition staleCalls :: "(string, string) action list" where
  "staleCalls = [Reload sampleNow, Load (Inr [expiredBroadcast])]"

definition samplePrependPath :: "string \<Rightarrow> string" where
  "samplePrependPath path = ''/'' @ path"

definition sampleProps :: props where
  "sampleProps =
     \<lparr>isNewTempWorkflow = False, hasChanges = True, hasInvalidConnections = True,
      requiredReindex = False\<rparr>"

section \<open>Properties of the broadcast store\<close>

subsection \<open>Expiry\<close>

lemma hasExpired_None: "hasExpired parseDate now None = False"
  by (simp add: hasExpired_def)

lemma hasExpired_empty: "hasExpired parseDate now (Some []) = False"
  by (simp add: hasExpired_def)

lemma hasExpired_parsed:
  "str \<noteq> [] \<Longrightarrow> parseDate (str @ ''Z'') = Some t \<Longrightarrow>
   hasExpired parseDate now (Some str) = (t < now)"
  by (simp add: hasExpired_def)

lemma hasExpired_absent:
  "e = None \<or> e = Some [] \<Longrightarrow> \<not> hasExpired parseDate now e"
  by (auto simp add: hasExpired_def)

lemma sample_hasExpired:
  "hasExpired sampleParseDate sampleNow (Some ''2024-01-01T00:00:00'')"
  "\<not> hasExpired sampleParseDate sampleNow (Some ''2030-01-01T00:00:00'')"
  by (simp_all add: hasExpired_def sampleParseDate_def sampleNow_def)

subsection \<open>\<open>updateBroadcasts\<close>\<close>

lemma set_updateBroadcasts:
  "set (broadcasts (updateBroadcasts merge parseDate now broadcastList s)) =
     {b \<in> set (merge (broadcasts s) broadcastList).
        \<not> hasExpired parseDate now (expiration_time b)}"
  by (simp add: updateBroadcasts_def)

lemma sample_update:
  "broadcasts (updateBroadcasts mergeObjectListsById sampleParseDate sampleNow
      [openBroadcast] sampleStore)
     = [currentBroadcast, openBroadcast]"
  by (simp add: updateBroadcasts_def mergeObjectListsById_def sampleStore_def
      currentBroadcast_def expiredBroadcast_def openBroadcast_def sample_hasExpired
      hasExpired_None)

text \<open>
  Claim C1. Whatever the current list, the incoming list and the merge helper, no element
  of the list that \<open>updateBroadcasts\<close> stores has expired at the instant of the call: for
  each of them \<open>hasExpired\<close> is false, so where its \<open>expiration_time\<close> is present and
  parses to an instant \<open>t\<close>, \<open>now > t\<close> does not hold.
\<close>

theorem updateBroadcasts_no_expired:
  assumes "b \<in> set (broadcasts (updateBroadcasts merge parseDate now broadcastList s))"
  shows "\<not> hasExpired parseDate now (expiration_time b) \<and>
         (\<forall>str t. expiration_time b = Some str \<and> str \<noteq> [] \<and> parseDate (str @ ''Z'') = Some t
            \<longrightarrow> \<not> now > t)"
proof -
  from assms have live: "\<not> hasExpired parseDate now (expiration_time b)"
    by (simp add: set_updateBroadcasts)
  then show ?thesis
    by (auto simp add: hasExpired_parsed)
qed

theorem updateBroadcasts_no_expired_witness:
  "currentBroadcast \<in> set (broadcasts
      (updateBroadcasts mergeObjectListsById sampleParseDate sampleNow [openBroadcast] sampleStore)) \<and>
   expiredBroadcast \<notin> set (broadcasts
      (updateBroadcasts mergeObjectListsById sampleParseDate sampleNow [openBroadcast] sampleStore)) \<and>
   \<not> hasExpired sampleParseDate sampleNow (expiration_time currentBroadcast)"
proof -
  have mem: "currentBroadcast \<in> set (broadcasts
      (updateBroadcasts mergeObjectListsById sampleParseDate sampleNow [openBroadcast] sampleStore))"
    by (simp add: sample_update)
  have "expiredBroadcast \<notin> set (broadcasts
      (updateBroadcasts mergeObjectListsById sampleParseDate sampleNow [openBroadcast] sampleStore))"
    unfolding sample_update
    by (simp add: currentBroadcast_def expiredBroadcast_def openBroadcast_def)
  with mem updateBroadcasts_no_expired [OF mem] show ?thesis
    by simp
qed

subsection \<open>\<open>clearExpiredDismissedBroadcasts\<close>\<close>

lemma map_of_clearStep:
  "map_of (clearStep parseDate now key d) k =
     (if k = key \<and> hasExpired parseDate now (Option.bind (map_of d k) expiration_time)
      then None else map_of d k)"
  by (auto simp add: clearStep_def AList.delete_conv')

lemma map_of_fold_clearStep:
  "map_of (fold (clearStep parseDate now) ks d) k =
     (if k \<in> set ks \<and> hasExpired parseDate now (Option.bind (map_of d k) expiration_time)
      then None else map_of d k)"
proof (induction ks arbitrary: d)
  case Nil
  show ?case by simp
next
  case (Cons key ks)
  show ?case
    by (auto simp add: Cons.IH map_of_clearStep hasExpired_None)
qed

lemma map_of_clear:
  "map_of (dismissedBroadcasts (clearExpiredDismissedBroadcasts parseDate now s)) k =
     (case map_of (dismissedBroadcasts s) k of
        None \<Rightarrow> None
      | Some r \<Rightarrow> if hasExpired parseDate now (expiration_time r) then None else Some r)"
proof (cases "map_of (dismissedBroadcasts s) k")
  case None
  then show ?thesis
    by (simp add: clearExpiredDismissedBroadcasts_def map_of_fold_clearStep)
next
  case (Some r)
  then have "k \<in> set (map fst (dismissedBroadcasts s))"
    by (metis domI dom_map_of_conv_image_fst set_map)
  with Some show ?thesis
    by (simp add: clearExpiredDismissedBroadcasts_def map_of_fold_clearStep)
qed

lemma broadcasts_clear [simp]:
  "broadcasts (clearExpiredDismissedBroadcasts parseDate now s) = broadcasts s"
  by (simp add: clearExpiredDismissedBroadcasts_def)

lemma dismissed_useBroadcastsStore:
  "dismissedBroadcasts (useBroadcastsStore parseDate now persisted :: 'p broadcasts_store) =
   dismissedBroadcasts (clearExpiredDismissedBroadcasts parseDate now
      (\<lparr>broadcasts = [], loadingBroadcasts = False, dismissedBroadcasts = persisted\<rparr>
        :: 'p broadcasts_store))"
  by (simp add: useBroadcastsStore_def)

lemma map_of_useBroadcastsStore:
  "map_of (dismissedBroadcasts (useBroadcastsStore parseDate now persisted)) k =
     (case map_of persisted k of
        None \<Rightarrow> None
      | Some r \<Rightarrow> if hasExpired parseDate now (expiration_time r) then None else Some r)"
  by (simp add: useBroadcastsStore_def map_of_clear)

text \<open>
  For an object, which holds each key once, the loop is a filter: the records that stay
  keep their order.
\<close>

lemma clearStep_filter:
  assumes "distinct (map fst d)"
  shows "clearStep parseDate now key d =
     filter (\<lambda>(k, r). \<not> (k = key \<and> hasExpired parseDate now (expiration_time r))) d"
proof (cases "map_of d key")
  case None
  then have "\<forall>p \<in> set d. fst p \<noteq> key"
    by (metis domIff dom_map_of_conv_image_fst imageI)
  then have "filter (\<lambda>(k, r). \<not> (k = key \<and> hasExpired parseDate now (expiration_time r))) d = d"
    by (auto simp add: filter_id_conv)
  with None show ?thesis
    by (simp add: clearStep_def hasExpired_None)
next
  case (Some r)
  have only: "r' = r" if "(key, r') \<in> set d" for r'
    using assms Some that by simp
  show ?thesis
  proof (cases "hasExpired parseDate now (expiration_time r)")
    case True
    have "AList.delete key d =
          filter (\<lambda>(k, r). \<not> (k = key \<and> hasExpired parseDate now (expiration_time r))) d"
      unfolding AList.delete_eq
    proof (rule filter_cong)
      fix p assume "p \<in> set d"
      then show "(case p of (k', _) \<Rightarrow> key \<noteq> k') =
         (case p of (k, r) \<Rightarrow> \<not> (k = key \<and> hasExpired parseDate now (expiration_time r)))"
        using only [of "snd p"] True by (cases p) auto
    qed simp
    with Some True show ?thesis
      by (simp add: clearStep_def)
  next
    case False
    have "filter (\<lambda>(k, r). \<not> (k = key \<and> hasExpired parseDate now (expiration_time r))) d = d"
      unfolding filter_id_conv using only False by auto
    with Some False show ?thesis
      by (simp add: clearStep_def)
  qed
qed

lemma fold_clearStep_filter:
  "distinct (map fst d) \<Longrightarrow>
   fold (clearStep parseDate now) ks d =
     filter (\<lambda>(k, r). \<not> (k \<in> set ks \<and> hasExpired parseDate now (expiration_time r))) d"
proof (induction ks arbitrary: d)
  case Nil
  show ?case by simp
next
  case (Cons key ks)
  let ?d = "filter (\<lambda>(k, r). \<not> (k = key \<and> hasExpired parseDate now (expiration_time r))) d"
  have "distinct (map fst ?d)"
    using Cons.prems by (rule distinct_map_filter)
  then have "fold (clearStep parseDate now) ks ?d =
     filter (\<lambda>(k, r). \<not> (k \<in> set ks \<and> hasExpired parseDate now (expiration_time r))) ?d"
    by (rule Cons.IH)
  then show ?case
    by (simp add: clearStep_filter [OF Cons.prems] case_prod_unfold) (rule filter_cong, auto)
qed

lemma clear_filter:
  assumes "distinct (map fst (dismissedBroadcasts s))"
  shows "dismissedBroadcasts (clearExpiredDismissedBroadcasts parseDate now s) =
     filter (\<lambda>(k, r). \<not> hasExpired parseDate now (expiration_time r)) (dismissedBroadcasts s)"
proof -
  have "filter (\<lambda>(k, r). \<not> (k \<in> set (map fst (dismissedBroadcasts s)) \<and>
            hasExpired parseDate now (expiration_time r))) (dismissedBroadcasts s) =
        filter (\<lambda>(k, r). \<not> hasExpired parseDate now (expiration_time r)) (dismissedBroadcasts s)"
    by (rule filter_cong) force+
  then show ?thesis
    by (simp add: clearExpiredDismissedBroadcasts_def fold_clearStep_filter [OF assms])
qed

lemma sample_clear:
  "dismissedBroadcasts (clearExpiredDismissedBroadcasts sampleParseDate sampleNow dismissedStore) =
     [(''b2'', \<lparr>expiration_time = Some ''2030-01-01T00:00:00''\<rparr>),
      (''b3'', \<lparr>expiration_time = None\<rparr>)]"
  by (simp add: clearExpiredDismissedBroadcasts_def dismissedStore_def sampleDismissed_def
      clearStep_def sample_hasExpired hasExpired_None)

text \<open>
  Claim C5. After \<open>clearExpiredDismissedBroadcasts\<close> the dismissal map holds no record whose
  \<open>expiration_time\<close> has passed: a record found under a key afterwards was there before and
  has not expired. A record that has not expired stays under its key, unchanged; the object
  as a whole is the old one with the expired records filtered out. The store's setup runs
  the purge once, on the map read from local storage.
\<close>

theorem clearExpired_purges_stale:
  "(map_of (dismissedBroadcasts (clearExpiredDismissedBroadcasts parseDate now s)) k = Some r
      \<longrightarrow> map_of (dismissedBroadcasts s) k = Some r \<and>
          \<not> hasExpired parseDate now (expiration_time r)) \<and>
   (map_of (dismissedBroadcasts s) k = Some r \<and> \<not> hasExpired parseDate now (expiration_time r)
      \<longrightarrow> map_of (dismissedBroadcasts (clearExpiredDismissedBroadcasts parseDate now s)) k = Some r) \<and>
   (distinct (map fst (dismissedBroadcasts s))
      \<longrightarrow> dismissedBroadcasts (clearExpiredDismissedBroadcasts parseDate now s) =
          filter (\<lambda>(k, r). \<not> hasExpired parseDate now (expiration_time r))
            (dismissedBroadcasts s)) \<and>
   map_of (dismissedBroadcasts (useBroadcastsStore parseDate now persisted)) k =
     (case map_of persisted k of
        None \<Rightarrow> None
      | Some r \<Rightarrow> if hasExpired parseDate now (expiration_time r) then None else Some r)"
proof (intro conjI impI)
  assume "map_of (dismissedBroadcasts (clearExpiredDismissedBroadcasts parseDate now s)) k = Some r"
  then show "map_of (dismissedBroadcasts s) k = Some r"
    and "\<not> hasExpired parseDate now (expiration_time r)"
    by (simp_all add: map_of_clear split: option.splits if_splits)
next
  assume "map_of (dismissedBroadcasts s) k = Some r \<and>
      \<not> hasExpired parseDate now (expiration_time r)"
  then show "map_of (dismissedBroadcasts (clearExpiredDismissedBroadcasts parseDate now s)) k = Some r"
    by (simp add: map_of_clear)
next
  assume "distinct (map fst (dismissedBroadcasts s))"
  then show "dismissedBroadcasts (clearExpiredDismissedBroadcasts parseDate now s) =
          filter (\<lambda>(k, r). \<not> hasExpired parseDate now (expiration_time r))
            (dismissedBroadcasts s)"
    by (rule clear_filter)
next
  show "map_of (dismissedBroadcasts (useBroadcastsStore parseDate now persisted)) k =
     (case map_of persisted k of
        None \<Rightarrow> None
      | Some r \<Rightarrow> if hasExpired parseDate now (expiration_time r) then None else Some r)"
    by (rule map_of_useBroadcastsStore)
qed

theorem clearExpired_purges_stale_witness:
  "map_of (dismissedBroadcasts dismissedStore) ''b2''
     = Some \<lparr>expiration_time = Some ''2030-01-01T00:00:00''\<rparr> \<and>
   \<not> hasExpired sampleParseDate sampleNow (Some ''2030-01-01T00:00:00'') \<and>
   map_of (dismissedBroadcasts
      (clearExpiredDismissedBroadcasts sampleParseDate sampleNow dismissedStore)) ''b2''
     = Some \<lparr>expiration_time = Some ''2030-01-01T00:00:00''\<rparr> \<and>
   distinct (map fst (dismissedBroadcasts dismissedStore)) \<and>
   dismissedBroadcasts (clearExpiredDismissedBroadcasts sampleParseDate sampleNow dismissedStore) =
     filter (\<lambda>(k, r). \<not> hasExpired sampleParseDate sampleNow (expiration_time r))
       (dismissedBroadcasts dismissedStore) \<and>
   map_of (dismissedBroadcasts
      (clearExpiredDismissedBroadcasts sampleParseDate sampleNow dismissedStore)) ''b1'' = None"
proof -
  have b2: "map_of (dismissedBroadcasts dismissedStore) ''b2''
      = Some \<lparr>expiration_time = Some ''2030-01-01T00:00:00''\<rparr>"
    by (simp add: dismissedStore_def sampleDismissed_def)
  have live: "\<not> hasExpired sampleParseDate sampleNow
      (expiration_time \<lparr>expiration_time = Some ''2030-01-01T00:00:00''\<rparr>)"
    by (simp add: sample_hasExpired)
  have d: "distinct (map fst (dismissedBroadcasts dismissedStore))"
    by (simp add: dismissedStore_def sampleDismissed_def)
  have b1: "map_of (dismissedBroadcasts
      (clearExpiredDismissedBroadcasts sampleParseDate sampleNow dismissedStore)) ''b1'' = None"
    by (simp add: sample_clear)
  note purge = clearExpired_purges_stale [where parseDate = sampleParseDate and now = sampleNow
      and s = dismissedStore and k = "''b2''" and persisted = "[]"
      and r = "\<lparr>expiration_time = Some ''2030-01-01T00:00:00''\<rparr>"]
  from purge b2 live
  have kept: "map_of (dismissedBroadcasts
      (clearExpiredDismissedBroadcasts sampleParseDate sampleNow dismissedStore)) ''b2''
     = Some \<lparr>expiration_time = Some ''2030-01-01T00:00:00''\<rparr>"
    by blast
  from purge d
  have "dismissedBroadcasts (clearExpiredDismissedBroadcasts sampleParseDate sampleNow dismissedStore) =
     filter (\<lambda>(k, r). \<not> hasExpired sampleParseDate sampleNow (expiration_time r))
       (dismissedBroadcasts dismissedStore)"
    by blast
  with b2 live d b1 kept show ?thesis
    by simp
qed

text \<open>
  Claim C9. An \<open>expiration_time\<close> that is absent or empty never counts as expired: at any
  instant, \<open>updateBroadcasts\<close> keeps every such broadcast of the merged list, and
  \<open>clearExpiredDismissedBroadcasts\<close> keeps every such dismissal record.
\<close>

theorem no_expiration_never_expires:
  "((expiration_time b = None \<or> expiration_time b = Some [])
     \<and> b \<in> set (merge (broadcasts s) broadcastList)
     \<longrightarrow> b \<in> set (broadcasts (updateBroadcasts merge parseDate now broadcastList s))) \<and>
   ((expiration_time r = None \<or> expiration_time r = Some [])
     \<and> map_of (dismissedBroadcasts s) k = Some r
     \<longrightarrow> map_of (dismissedBroadcasts (clearExpiredDismissedBroadcasts parseDate now s)) k = Some r)"
proof (intro conjI impI)
  assume "(expiration_time b = None \<or> expiration_time b = Some [])
     \<and> b \<in> set (merge (broadcasts s) broadcastList)"
  then show "b \<in> set (broadcasts (updateBroadcasts merge parseDate now broadcastList s))"
    by (simp add: set_updateBroadcasts hasExpired_absent)
next
  assume "(expiration_time r = None \<or> expiration_time r = Some [])
     \<and> map_of (dismissedBroadcasts s) k = Some r"
  then show "map_of (dismissedBroadcasts (clearExpiredDismissedBroadcasts parseDate now s)) k = Some r"
    by (simp add: map_of_clear hasExpired_absent)
qed

theorem no_expiration_never_expires_witness:
  "expiration_time openBroadcast = None \<and>
   openBroadcast \<in> set (mergeObjectListsById (broadcasts dismissedStore) [openBroadcast]) \<and>
   openBroadcast \<in> set (broadcasts
     (updateBroadcasts mergeObjectListsById sampleParseDate sampleNow [openBroadcast] dismissedStore)) \<and>
   map_of (dismissedBroadcasts dismissedStore) ''b3'' = Some \<lparr>expiration_time = None\<rparr> \<and>
   map_of (dismissedBroadcasts
     (clearExpiredDismissedBroadcasts sampleParseDate sampleNow dismissedStore)) ''b3''
     = Some \<lparr>expiration_time = None\<rparr>"
proof -
  have e: "expiration_time openBroadcast = None"
    by (simp add: openBroadcast_def)
  have m: "openBroadcast \<in> set (mergeObjectListsById (broadcasts dismissedStore) [openBroadcast])"
    by (simp add: mergeObjectListsById_def dismissedStore_def sampleStore_def
        currentBroadcast_def expiredBroadcast_def openBroadcast_def)
  have d: "map_of (dismissedBroadcasts dismissedStore) ''b3'' = Some \<lparr>expiration_time = None\<rparr>"
    by (simp add: dismissedStore_def sampleDismissed_def)
  have r: "expiration_time \<lparr>expiration_time = None\<rparr> = None"
    by simp
  from no_expiration_never_expires [where b = openBroadcast and merge = mergeObjectListsById
      and s = dismissedStore and broadcastList = "[openBroadcast]" and parseDate = sampleParseDate
      and now = sampleNow and r = "\<lparr>expiration_time = None\<rparr>" and k = "''b3''"]
    e m d r
  show ?thesis
    by blast
qed

subsection \<open>\<open>activeBroadcasts\<close>\<close>

lemma activeBroadcasts_mem:
  "b \<in> set (activeBroadcasts inherited s) \<longleftrightarrow>
     b \<in> set (broadcasts s) \<and> map_of (dismissedBroadcasts s) (id_b b) = None \<and>
     \<not> inherited (id_b b)"
  by (auto simp add: activeBroadcasts_def truthyAt_def split: option.splits)

lemma sample_not_inherited:
  "\<not> objectPrototype ''b1''" "\<not> objectPrototype ''b2''" "\<not> objectPrototype ''b3''"
  "objectPrototype ''constructor''"
  by (simp_all add: objectPrototype_def)

lemma stale_run:
  "run mergeObjectListsById sampleParseDate staleCalls dismissedStore
   = \<lparr>broadcasts = [expiredBroadcast], loadingBroadcasts = False,
      dismissedBroadcasts =
        [(''b2'', \<lparr>expiration_time = Some ''2030-01-01T00:00:00''\<rparr>),
         (''b3'', \<lparr>expiration_time = None\<rparr>)]\<rparr>"
  by (simp add: run_def staleCalls_def useBroadcastsStore_def sample_clear [unfolded dismissedStore_def sampleStore_def]
      dismissedStore_def sampleStore_def
      clearExpiredDismissedBroadcasts_def clearStep_def sampleDismissed_def
      loadBroadcasts_def loadBroadcasts_begin_def
      loadBroadcasts_resume_def mergeObjectListsById_def sample_hasExpired hasExpired_None)

text \<open>
  Claim C2, as the spec states it: a broadcast of the store whose \<open>expiration_time\<close> is in
  the past is absent from \<open>activeBroadcasts\<close> after \<open>clearExpiredDismissedBroadcasts\<close>.
  The function removes dismissal records and leaves the list alone, so it can only make a
  broadcast active again: here the expired broadcast \<open>b1\<close> was dismissed, its record is
  purged, and it is active afterwards. The same happens along the calls a client can make:
  the page is loaded, which runs the purge, and the fetch answers with \<open>b1\<close>.
\<close>

theorem expired_broadcast_active_counterexample:
  "expiredBroadcast \<in> set (broadcasts dismissedStore) \<and>
   hasExpired sampleParseDate sampleNow (expiration_time expiredBroadcast) \<and>
   expiredBroadcast \<in> set (activeBroadcasts objectPrototype
      (clearExpiredDismissedBroadcasts sampleParseDate sampleNow dismissedStore)) \<and>
   expiredBroadcast \<in> set (activeBroadcasts objectPrototype
      (run mergeObjectListsById sampleParseDate staleCalls dismissedStore))"
proof -
  have "expiredBroadcast \<in> set (broadcasts dismissedStore)"
    by (simp add: dismissedStore_def sampleStore_def)
  moreover have "hasExpired sampleParseDate sampleNow (expiration_time expiredBroadcast)"
    by (simp add: expiredBroadcast_def sample_hasExpired)
  moreover have "map_of (dismissedBroadcasts
      (clearExpiredDismissedBroadcasts sampleParseDate sampleNow dismissedStore))
      (id_b expiredBroadcast) = None"
    by (simp add: sample_clear expiredBroadcast_def)
  moreover have "\<not> objectPrototype (id_b expiredBroadcast)"
    by (simp add: expiredBroadcast_def sample_not_inherited)
  moreover have "expiredBroadcast \<in> set (activeBroadcasts objectPrototype
      (run mergeObjectListsById sampleParseDate staleCalls dismissedStore))"
    unfolding stale_run
    by (simp add: activeBroadcasts_mem expiredBroadcast_def sample_not_inherited)
  ultimately show ?thesis
    by (simp add: activeBroadcasts_mem)
qed

text \<open>
  Claim C2, amended. After \<open>clearExpiredDismissedBroadcasts\<close> a broadcast of the store is
  absent from \<open>activeBroadcasts\<close> exactly when its id has a dismissal record that has not
  expired, or its id is a name under which the dismissal object inherits a member (such as
  \<open>constructor\<close>); the broadcast's own \<open>expiration_time\<close> plays no part. Where the function
  runs, in the store's setup, the list is empty and so is \<open>activeBroadcasts\<close>.
\<close>

theorem activeBroadcasts_after_clear:
  "(b \<in> set (broadcasts s) \<longrightarrow>
      (b \<notin> set (activeBroadcasts inherited
                  (clearExpiredDismissedBroadcasts parseDate now s))) =
      ((\<exists>r. map_of (dismissedBroadcasts s) (id_b b) = Some r \<and>
            \<not> hasExpired parseDate now (expiration_time r)) \<or>
       inherited (id_b b))) \<and>
   activeBroadcasts inherited (useBroadcastsStore parseDate now persisted) = []"
proof (intro conjI impI)
  assume "b \<in> set (broadcasts s)"
  then show "(b \<notin> set (activeBroadcasts inherited
                  (clearExpiredDismissedBroadcasts parseDate now s))) =
      ((\<exists>r. map_of (dismissedBroadcasts s) (id_b b) = Some r \<and>
            \<not> hasExpired parseDate now (expiration_time r)) \<or>
       inherited (id_b b))"
    by (cases "map_of (dismissedBroadcasts s) (id_b b)")
      (simp_all add: activeBroadcasts_mem map_of_clear)
next
  show "activeBroadcasts inherited (useBroadcastsStore parseDate now persisted) = []"
    by (simp add: activeBroadcasts_def useBroadcastsStore_def)
qed

theorem activeBroadcasts_after_clear_witness:
  "currentBroadcast \<in> set (broadcasts dismissedStore) \<and>
   map_of (dismissedBroadcasts dismissedStore) (id_b currentBroadcast)
     = Some \<lparr>expiration_time = Some ''2030-01-01T00:00:00''\<rparr> \<and>
   \<not> hasExpired sampleParseDate sampleNow (Some ''2030-01-01T00:00:00'') \<and>
   currentBroadcast \<notin> set (activeBroadcasts objectPrototype
      (clearExpiredDismissedBroadcasts sampleParseDate sampleNow dismissedStore)) \<and>
   inheritedBroadcast \<in> set (broadcasts inheritedStore) \<and>
   map_of (dismissedBroadcasts inheritedStore) (id_b inheritedBroadcast) = None \<and>
   objectPrototype (id_b inheritedBroadcast) \<and>
   inheritedBroadcast \<notin> set (activeBroadcasts objectPrototype
      (clearExpiredDismissedBroadcasts sampleParseDate sampleNow inheritedStore)) \<and>
   openBroadcast \<in> set (activeBroadcasts objectPrototype
      (clearExpiredDismissedBroadcasts sampleParseDate sampleNow inheritedStore))"
proof -
  have mem: "currentBroadcast \<in> set (broadcasts dismissedStore)"
    by (simp add: dismissedStore_def sampleStore_def)
  have rec: "map_of (dismissedBroadcasts dismissedStore) (id_b currentBroadcast)
     = Some \<lparr>expiration_time = Some ''2030-01-01T00:00:00''\<rparr>"
    by (simp add: dismissedStore_def sampleDismissed_def currentBroadcast_def)
  have live: "\<not> hasExpired sampleParseDate sampleNow
     (expiration_time \<lparr>expiration_time = Some ''2030-01-01T00:00:00''\<rparr>)"
    by (simp add: sample_hasExpired)
  from activeBroadcasts_after_clear [where b = currentBroadcast and s = dismissedStore
      and parseDate = sampleParseDate and now = sampleNow and persisted = "[]"
      and inherited = objectPrototype] mem rec live
  have hidden: "currentBroadcast \<notin> set (activeBroadcasts objectPrototype
      (clearExpiredDismissedBroadcasts sampleParseDate sampleNow dismissedStore))"
    by blast
  have mem': "inheritedBroadcast \<in> set (broadcasts inheritedStore)"
    by (simp add: inheritedStore_def)
  have none: "map_of (dismissedBroadcasts inheritedStore) (id_b inheritedBroadcast) = None"
    by (simp add: inheritedStore_def)
  have proto: "objectPrototype (id_b inheritedBroadcast)"
    by (simp add: inheritedBroadcast_def sample_not_inherited)
  from activeBroadcasts_after_clear [where b = inheritedBroadcast and s = inheritedStore
      and parseDate = sampleParseDate and now = sampleNow and persisted = "[]"
      and inherited = objectPrototype] mem' proto
  have hidden': "inheritedBroadcast \<notin> set (activeBroadcasts objectPrototype
      (clearExpiredDismissedBroadcasts sampleParseDate sampleNow inheritedStore))"
    by blast
  have mem'': "openBroadcast \<in> set (broadcasts inheritedStore)"
    by (simp add: inheritedStore_def)
  have none'': "map_of (dismissedBroadcasts inheritedStore) (id_b openBroadcast) = None"
    by (simp add: inheritedStore_def)
  have plain: "\<not> objectPrototype (id_b openBroadcast)"
    by (simp add: openBroadcast_def sample_not_inherited)
  from activeBroadcasts_after_clear [where b = openBroadcast and s = inheritedStore
      and parseDate = sampleParseDate and now = sampleNow and persisted = "[]"
      and inherited = objectPrototype] mem'' none'' plain
  have shown: "openBroadcast \<in> set (activeBroadcasts objectPrototype
      (clearExpiredDismissedBroadcasts sampleParseDate sampleNow inheritedStore))"
    by auto
  from mem rec live hidden mem' none proto hidden' shown show ?thesis
    by simp
qed

subsection \<open>\<open>dismissBroadcast\<close>\<close>

lemma dismissed_act_Load [simp]:
  "dismissedBroadcasts (snd (loadBroadcasts merge response s)) = dismissedBroadcasts s"
  by (cases response) (simp_all add: loadBroadcasts_def loadBroadcasts_resume_def loadBroadcasts_begin_def)

lemma dismissed_updateBroadcasts [simp]:
  "dismissedBroadcasts (updateBroadcasts merge parseDate now broadcastList s) = dismissedBroadcasts s"
  by (simp add: updateBroadcasts_def)

lemma map_of_dismissBroadcast:
  "map_of (dismissedBroadcasts (dismissBroadcast b s)) k =
     (if k = id_b b then Some \<lparr>expiration_time = expiration_time b\<rparr>
      else map_of (dismissedBroadcasts s) k)"
  by (simp add: dismissBroadcast_def AList.update_conv')

lemma act_keeps_record:
  assumes "map_of (dismissedBroadcasts s) k = Some \<lparr>expiration_time = e\<rparr>"
    and "keeps parseDate k e a"
  shows "map_of (dismissedBroadcasts (act merge parseDate a s)) k = Some \<lparr>expiration_time = e\<rparr>"
proof (cases a)
  case (Load response)
  with assms show ?thesis by simp
next
  case (Update now broadcastList)
  with assms show ?thesis by simp
next
  case (Dismiss broadcast)
  with assms show ?thesis by (simp add: map_of_dismissBroadcast)
next
  case (Reload now)
  with assms show ?thesis by (simp add: map_of_useBroadcastsStore)
qed

lemma run_keeps_record:
  "map_of (dismissedBroadcasts s) k = Some \<lparr>expiration_time = e\<rparr> \<Longrightarrow>
   \<forall>a \<in> set as. keeps parseDate k e a \<Longrightarrow>
   map_of (dismissedBroadcasts (run merge parseDate as s)) k = Some \<lparr>expiration_time = e\<rparr>"
proof (induction as arbitrary: s)
  case Nil
  then show ?case by (simp add: run_def)
next
  case (Cons a as)
  from Cons.prems have "map_of (dismissedBroadcasts (act merge parseDate a s)) k
      = Some \<lparr>expiration_time = e\<rparr>"
    by (simp add: act_keeps_record)
  with Cons.prems have "map_of (dismissedBroadcasts
      (run merge parseDate as (act merge parseDate a s))) k = Some \<lparr>expiration_time = e\<rparr>"
    by (intro Cons.IH) simp_all
  then show ?case by (simp add: run_def)
qed

lemma sample_run:
  "run mergeObjectListsById sampleParseDate sampleCalls (dismissBroadcast currentBroadcast sampleStore)
   = \<lparr>broadcasts = [currentBroadcast, openBroadcast], loadingBroadcasts = False,
      dismissedBroadcasts = [(''b2'', \<lparr>expiration_time = Some ''2030-01-01T00:00:00''\<rparr>)]\<rparr>"
  by (simp add: run_def sampleCalls_def dismissBroadcast_def sampleStore_def useBroadcastsStore_def
      clearExpiredDismissedBroadcasts_def clearStep_def loadBroadcasts_def loadBroadcasts_begin_def
      loadBroadcasts_resume_def mergeObjectListsById_def
      currentBroadcast_def openBroadcast_def sample_hasExpired)

text \<open>
  Claim C3. \<open>dismissBroadcast b\<close> records the id of \<open>b\<close> with the \<open>expiration_time\<close> of
  \<open>b\<close>. From then on, through any sequence of fetches, updates, dismissals of other ids and
  page loads at instants when that expiration has not passed, no broadcast with this id is
  among \<open>activeBroadcasts\<close>. A page load once the expiration has passed purges the record.
\<close>

theorem dismissBroadcast_excludes:
  "map_of (dismissedBroadcasts (dismissBroadcast b s)) (id_b b)
     = Some \<lparr>expiration_time = expiration_time b\<rparr> \<and>
   ((\<forall>a \<in> set as. keeps parseDate (id_b b) (expiration_time b) a) \<longrightarrow>
      (\<forall>x \<in> set (activeBroadcasts inherited
                    (run merge parseDate as (dismissBroadcast b s))).
         id_b x \<noteq> id_b b)) \<and>
   (hasExpired parseDate now (expiration_time b) \<longrightarrow>
      map_of (dismissedBroadcasts (useBroadcastsStore parseDate now
        (dismissedBroadcasts (dismissBroadcast b s)))) (id_b b) = None)"
proof (intro conjI impI ballI)
  show rec: "map_of (dismissedBroadcasts (dismissBroadcast b s)) (id_b b)
     = Some \<lparr>expiration_time = expiration_time b\<rparr>"
    by (simp add: map_of_dismissBroadcast)
  fix x
  assume "\<forall>a \<in> set as. keeps parseDate (id_b b) (expiration_time b) a"
  with rec have "map_of (dismissedBroadcasts (run merge parseDate as (dismissBroadcast b s))) (id_b b)
     = Some \<lparr>expiration_time = expiration_time b\<rparr>"
    by (rule run_keeps_record)
  moreover assume "x \<in> set (activeBroadcasts inherited
      (run merge parseDate as (dismissBroadcast b s)))"
  ultimately show "id_b x \<noteq> id_b b"
    by (auto simp add: activeBroadcasts_mem)
next
  assume "hasExpired parseDate now (expiration_time b)"
  then show "map_of (dismissedBroadcasts (useBroadcastsStore parseDate now
        (dismissedBroadcasts (dismissBroadcast b s)))) (id_b b) = None"
    by (simp add: map_of_useBroadcastsStore map_of_dismissBroadcast)
qed

theorem dismissBroadcast_excludes_witness:
  "list_all (keeps sampleParseDate (id_b currentBroadcast) (expiration_time currentBroadcast))
     sampleCalls \<and>
   currentBroadcast \<in> set (broadcasts
     (run mergeObjectListsById sampleParseDate sampleCalls
       (dismissBroadcast currentBroadcast sampleStore))) \<and>
   currentBroadcast \<notin> set (activeBroadcasts objectPrototype
     (run mergeObjectListsById sampleParseDate sampleCalls
       (dismissBroadcast currentBroadcast sampleStore)))"
proof -
  have k: "\<forall>a \<in> set sampleCalls.
      keeps sampleParseDate (id_b currentBroadcast) (expiration_time currentBroadcast) a"
    by (simp add: sampleCalls_def currentBroadcast_def sample_hasExpired)
  have mem: "currentBroadcast \<in> set (broadcasts
     (run mergeObjectListsById sampleParseDate sampleCalls
       (dismissBroadcast currentBroadcast sampleStore)))"
    by (simp add: sample_run)
  from dismissBroadcast_excludes [where b = currentBroadcast and s = sampleStore
      and as = sampleCalls and parseDate = sampleParseDate and merge = mergeObjectListsById
      and now = sampleNow and inherited = objectPrototype] k
  have "currentBroadcast \<notin> set (activeBroadcasts objectPrototype
     (run mergeObjectListsById sampleParseDate sampleCalls
       (dismissBroadcast currentBroadcast sampleStore)))"
    by blast
  with k mem show ?thesis
    by (simp add: list_all_iff)
qed

subsection \<open>\<open>loadBroadcasts\<close> with the merge helper of the spec\<close>

lemma set_dedupById_subset: "set (dedupById xs) \<subseteq> set xs"
  by (induction xs) auto

lemma ids_dedupById: "id_b ` set (dedupById xs) = id_b ` set xs"
  by (induction xs) auto

lemma distinct_dedupById: "distinct (map id_b (dedupById xs))"
proof (induction xs)
  case Nil
  show ?case by simp
next
  case (Cons x xs)
  have "id_b x \<notin> id_b ` set (dedupById xs)" if "id_b x \<notin> id_b ` set xs"
    using that by (simp add: ids_dedupById)
  with Cons show ?case by auto
qed

lemma set_insertDesc: "set (insertDesc x xs) = insert x (set xs)"
  by (induction xs) auto

lemma set_sortDesc: "set (sortDesc xs) = set xs"
  by (induction xs) (auto simp add: set_insertDesc)

lemma sorted_insertDesc:
  "sorted_wrt (\<lambda>a b. create_time b \<le> create_time a) xs \<Longrightarrow>
   sorted_wrt (\<lambda>a b. create_time b \<le> create_time a) (insertDesc x xs)"
proof (induction xs)
  case Nil
  show ?case by simp
next
  case (Cons y ys)
  show ?case
  proof (cases "create_time y \<le> create_time x")
    case True
    with Cons.prems show ?thesis by (auto intro: order_trans)
  next
    case False
    then have "create_time x \<le> create_time y" by simp
    with Cons False show ?thesis by (auto simp add: set_insertDesc)
  qed
qed

lemma sorted_sortDesc: "sorted_wrt (\<lambda>a b. create_time b \<le> create_time a) (sortDesc xs)"
  by (induction xs) (simp_all add: sorted_insertDesc)

lemma distinct_ids_insertDesc:
  "distinct (map id_b (insertDesc x xs)) = (id_b x \<notin> id_b ` set xs \<and> distinct (map id_b xs))"
  by (induction xs) (auto simp add: set_insertDesc)

lemma distinct_ids_sortDesc: "distinct (map id_b (sortDesc xs)) = distinct (map id_b xs)"
  by (induction xs) (simp_all add: distinct_ids_insertDesc set_sortDesc)

lemma mergeObjectListsById_props:
  "sorted_wrt (\<lambda>a b. create_time b \<le> create_time a) (mergeObjectListsById list1 list2)"
  "distinct (map id_b (mergeObjectListsById list1 list2))"
  "set (mergeObjectListsById list1 list2) \<subseteq> set list1 \<union> set list2"
  "id_b ` set (mergeObjectListsById list1 list2) = id_b ` (set list1 \<union> set list2)"
  using set_dedupById_subset [of "list1 @ list2"]
  by (simp_all add: mergeObjectListsById_def sorted_sortDesc distinct_ids_sortDesc
      distinct_dedupById set_sortDesc ids_dedupById)

text \<open>
  Claim C4. When the fetch answers with a list, \<open>loadBroadcasts\<close> resolves and stores the
  merge of that list with the empty list: ordered by \<open>create_time\<close> descending, one
  element for each id of the fetched list, every element taken from the fetched list, so
  nothing of the previous local list is left. The dismissal map is untouched.
\<close>

theorem loadBroadcasts_replaces:
  "\<exists>s'. loadBroadcasts mergeObjectListsById (Inr data) s = (Resolved, s') \<and>
      broadcasts s' = mergeObjectListsById data [] \<and>
      sorted_wrt (\<lambda>a b. create_time b \<le> create_time a) (broadcasts s') \<and>
      distinct (map id_b (broadcasts s')) \<and>
      id_b ` set (broadcasts s') = id_b ` set data \<and>
      set (broadcasts s') \<subseteq> set data \<and>
      loadingBroadcasts s' = False \<and>
      dismissedBroadcasts s' = dismissedBroadcasts s"
  using mergeObjectListsById_props [of data "[]"]
  by (simp add: loadBroadcasts_def loadBroadcasts_begin_def loadBroadcasts_resume_def)

theorem loadBroadcasts_replaces_witness:
  "loadBroadcasts mergeObjectListsById (Inr fetchedList :: string + string broadcast list) sampleStore =
     (Resolved, sampleStore\<lparr>broadcasts := [currentBroadcast, openBroadcast, expiredBroadcast]\<rparr>) \<and>
   id_b ` set [currentBroadcast, openBroadcast, expiredBroadcast] = id_b ` set fetchedList"
proof -
  have m: "mergeObjectListsById fetchedList [] = [currentBroadcast, openBroadcast, expiredBroadcast]"
    by (simp add: mergeObjectListsById_def fetchedList_def
        currentBroadcast_def openBroadcast_def expiredBroadcast_def)
  from loadBroadcasts_replaces [of fetchedList sampleStore]
  obtain s' where s': "loadBroadcasts mergeObjectListsById
        (Inr fetchedList :: string + string broadcast list) sampleStore = (Resolved, s')"
      "broadcasts s' = mergeObjectListsById fetchedList []"
      "id_b ` set (broadcasts s') = id_b ` set fetchedList"
      "loadingBroadcasts s' = False"
      "dismissedBroadcasts s' = dismissedBroadcasts sampleStore"
    by blast
  then have "s' = sampleStore\<lparr>broadcasts := [currentBroadcast, openBroadcast, expiredBroadcast]\<rparr>"
    by (simp add: m sampleStore_def)
  with s' show ?thesis
    by (simp add: m)
qed

section \<open>Properties of the data providers\<close>

text \<open>
  Claim C7. When the handler of the \<open>id\<close> watcher sees a new value different from the old
  one, the first mount included, it sets \<open>loading\<close> and issues one GET of the provider's
  url for the new id; when the request is answered, the response replaces \<open>item\<close> and
  \<open>loading\<close> is false again. With the same value it issues no request and changes nothing.
\<close>

theorem id_change_loads:
  "(Some newVal \<noteq> oldVal \<longrightarrow>
      id_handler url newVal oldVal s = (s\<lparr>loading := True\<rparr>, [Get (url newVal)]) \<and>
      SimpleProviderMixin_load_resume (Inr data :: 'e + 'a)
          (fst (id_handler url newVal oldVal s)) =
        (Resolved, s\<lparr>item := Some data, loading := False\<rparr>)) \<and>
   (Some newVal = oldVal \<longrightarrow> id_handler url newVal oldVal s = (s, [])) \<and>
   id_handler url newVal None s = (s\<lparr>loading := True\<rparr>, [Get (url newVal)])"
  by (simp add: id_handler_def SimpleProviderMixin_load_begin_def
      SimpleProviderMixin_load_resume_def)

theorem id_change_loads_witness:
  "Some ''j2'' \<noteq> Some ''j1'' \<and>
   id_handler (JobProvider_url samplePrependPath) ''j2'' (Some ''j1'') (SimpleProviderMixin_data :: string simple_provider)
     = (\<lparr>loading = True, item = None\<rparr>, [Get ''/api/jobs/j2?full=true'']) \<and>
   SimpleProviderMixin_load_resume (Inr ''job two'' :: string + string)
       (\<lparr>loading = True, item = None\<rparr>)
     = (Resolved, \<lparr>loading = False, item = Some ''job two''\<rparr>) \<and>
   id_handler (JobProvider_url samplePrependPath) ''j2'' (Some ''j2'') (SimpleProviderMixin_data :: string simple_provider)
     = (SimpleProviderMixin_data, [])"
  using id_change_loads [where newVal = "''j2''" and oldVal = "Some ''j1''" and url = "JobProvider_url samplePrependPath"
      and s = "SimpleProviderMixin_data :: string simple_provider" and data = "''job two''"
      and 'e = string]
    id_change_loads [where newVal = "''j2''" and oldVal = "Some ''j2''" and url = "JobProvider_url samplePrependPath"
      and s = "SimpleProviderMixin_data :: string simple_provider" and data = "''job two''"
      and 'e = string]
  by (simp add: SimpleProviderMixin_data_def JobProvider_url_def samplePrependPath_def
      SimpleProviderMixin_load_resume_def)

text \<open>
  Claim C8. When the request fails, \<open>load\<close> of the basic provider rejects with the error
  (and leaves \<open>loading\<close> set); \<open>load\<close> of the store-backed provider resolves, with the
  error in its \<open>error\<close> field and \<open>loading\<close> false, and a later load that succeeds sets
  \<open>error\<close> back to \<open>null\<close>.
\<close>

theorem load_failure:
  "SimpleProviderMixin_load url (Inl err :: 'e + 'a) s = (Rejected err, s\<lparr>loading := True\<rparr>) \<and>
   StoreProvider_load (Inl err :: 'e + 'r) p = (Resolved, p\<lparr>loading := False, error := Some err\<rparr>) \<and>
   StoreProvider_load (Inr r :: 'e + 'r) (snd (StoreProvider_load (Inl err :: 'e + 'r) p)) =
     (Resolved, p\<lparr>loading := False, error := None\<rparr>)"
  by (simp add: SimpleProviderMixin_load_def SimpleProviderMixin_load_begin_def
      SimpleProviderMixin_load_resume_def StoreProvider_load_def StoreProvider_load_begin_def
      StoreProvider_load_resume_def)

theorem load_failure_witness:
  "SimpleProviderMixin_load ''/api/jobs/j1?full=true'' (Inl ''timeout'' :: string + string)
      SimpleProviderMixin_data
     = (Rejected ''timeout'', \<lparr>loading = True, item = None\<rparr>) \<and>
   StoreProvider_load (Inl ''timeout'' :: string + unit) StoreProvider_data
     = (Resolved, \<lparr>loading = False, error = Some ''timeout''\<rparr>) \<and>
   StoreProvider_load (Inr () :: string + unit)
      (snd (StoreProvider_load (Inl ''timeout'' :: string + unit) StoreProvider_data))
     = (Resolved, \<lparr>loading = False, error = None\<rparr>)"
proof -
  note fail = load_failure [where url = "''/api/jobs/j1?full=true''" and err = "''timeout''"
      and s = "SimpleProviderMixin_data :: string simple_provider"
      and p = "StoreProvider_data" and r = "()" and 'e = string and 'a = string and 'r = unit]
  have e1: "SimpleProviderMixin_data\<lparr>loading := True\<rparr> = \<lparr>loading = True, item = (None :: string option)\<rparr>"
    by (simp add: SimpleProviderMixin_data_def)
  have e2: "StoreProvider_data\<lparr>loading := False, error := Some ''timeout''\<rparr>
      = \<lparr>loading = False, error = Some ''timeout''\<rparr>"
    by (simp add: StoreProvider_data_def)
  have e3: "StoreProvider_data\<lparr>loading := False, error := None\<rparr>
      = \<lparr>loading = False, error = (None :: string option)\<rparr>"
    by (simp add: StoreProvider_data_def)
  from fail [unfolded e1 e2 e3] show ?thesis .
qed

section \<open>Properties of the options toolbar\<close>

text \<open>
  Claim C10. \<open>onSave\<close> emits exactly one event, \<open>onCreate\<close> for a new temporary workflow
  and \<open>onSave\<close> otherwise, when there are no invalid connections, and also when there are
  and the user confirms the dialog; when the user declines it emits nothing.
\<close>

theorem onSave_emits:
  "(\<not> hasInvalidConnections p \<longrightarrow>
      emitted (onSave p confirmed) = [if isNewTempWorkflow p then OnCreate else OnSave]) \<and>
   (hasInvalidConnections p \<and> confirmed \<longrightarrow>
      emitted (onSave p confirmed) = [if isNewTempWorkflow p then OnCreate else OnSave]) \<and>
   (hasInvalidConnections p \<and> \<not> confirmed \<longrightarrow> emitted (onSave p confirmed) = [])"
  by (simp add: onSave_def emitSaveOrCreate_def)

theorem onSave_emits_witness:
  "hasInvalidConnections sampleProps \<and>
   emitted (onSave sampleProps True) = [OnSave] \<and>
   emitted (onSave sampleProps False) = [] \<and>
   \<not> hasInvalidConnections (sampleProps\<lparr>hasInvalidConnections := False, isNewTempWorkflow := True\<rparr>) \<and>
   emitted (onSave (sampleProps\<lparr>hasInvalidConnections := False, isNewTempWorkflow := True\<rparr>) False)
     = [OnCreate]"
  using onSave_emits [of sampleProps True] onSave_emits [of sampleProps False]
    onSave_emits [of "sampleProps\<lparr>hasInvalidConnections := False, isNewTempWorkflow := True\<rparr>" False]
  by (simp add: sampleProps_def)

end
